theory Spec2Isabelle
  imports Main "HOL-Library.Word"
begin

unbundle bit_operations_syntax

section \<open>CXG Computachess II: the multiplexed I/O of \<open>computachess2.cpp\<close>\<close>

text \<open>
  The driver class \<open>cpchess2_state\<close> has one data member of its own, the 8-bit
  \<open>m_inp_mux\<close>, and three handlers wired to the MCU ports: \<open>mux_w<N>\<close> on R2 and R3,
  \<open>control_w\<close> and \<open>input_r\<close> on the D port. The handlers are embedded below with
  explicit state passing. C++ evaluates every operand narrower than \<open>int\<close> as a
  32-bit \<open>int\<close> and narrows on assignment; both conversions are written out as
  \<open>ucast\<close>.
\<close>

subsection \<open>Machine types\<close>

type_synonym u8 = "8 word"
type_synonym u16 = "16 word"
type_synonym cint = "32 word"

text \<open>
  Modelled from the spec: the \<open>BIT\<close> helper of \<open>emu.h\<close> is used by the driver but
  declared outside it. The spec reads \<open>BIT(m_inp_mux, i)\<close> as "bit i of MuxState
  is set" and \<open>BIT(data, 4)\<close> as "the boolean value of that bit": the operand
  shifted right by \<open>n\<close> and masked with 1, in the operand's own type.
\<close>

definition BIT :: "'a::len word \<Rightarrow> nat \<Rightarrow> 'a word" where
  "BIT x n = drop_bit n x AND 1"

subsection \<open>State\<close>

text \<open>
  \<open>m_inp_mux\<close> is the member of the class. The other three fields record the last
  value handed to each output device: \<open>m_display->write_mx\<close>, \<open>m_display->write_my\<close>
  and \<open>m_dac->write\<close>.
\<close>

record cpchess2_state =
  m_inp_mux :: u8
  display_mx :: u8
  display_my :: cint
  dac_state :: u16

text \<open>
  Modelled from the spec: the two input devices are declared outside the driver.
  The spec gives their interface as \<open>readGroup(index: 0..1) -> 8-bit raw level mask\<close>
  for \<open>m_inputs[i]->read()\<close> and \<open>readFile(index: 0..7) -> 8-bit occupancy mask\<close>
  for \<open>m_board->read_file(x)\<close>. Their current readings are a parameter of the read
  handler.
\<close>

record devices =
  inputs_read :: "nat \<Rightarrow> u8"
  board_read_file :: "nat \<Rightarrow> u8"

subsection \<open>Handlers\<close>

text \<open>
  \<open>template<int N> void mux_w(u8 data)\<close>, instantiated at \<open>N = 0\<close> (port R2) and
  \<open>N = 1\<close> (port R3):
  \<^verbatim>\<open>
    const u8 shift = N * 4;
    m_inp_mux = (m_inp_mux & ~(0xf << shift)) | ((data ^ 0xf) << shift);
    m_display->write_mx(m_inp_mux);
  \<close>
\<close>

definition mux_w :: "nat \<Rightarrow> u8 \<Rightarrow> cpchess2_state \<Rightarrow> cpchess2_state" where
  "mux_w N data st =
     (let shift = (of_nat (N * 4) :: u8);
          mux = (ucast (((ucast (m_inp_mux st) :: cint) AND NOT (push_bit (unat shift) 0xf))
                   OR push_bit (unat shift) ((ucast data :: cint) XOR 0xf)) :: u8)
      in st\<lparr>m_inp_mux := mux, display_mx := mux\<rparr>)"

text \<open>
  \<open>void control_w(u16 data)\<close>:
  \<^verbatim>\<open>
    m_dac->write(BIT(data, 4));
    m_display->write_my(~data >> 2 & 3);
  \<close>
  \<open>~data\<close> is a negative \<open>int\<close>, so the shift is the arithmetic one.
\<close>

definition control_w :: "u16 \<Rightarrow> cpchess2_state \<Rightarrow> cpchess2_state" where
  "control_w data st =
     st\<lparr>dac_state := BIT data 4,
        display_my := signed_drop_bit 2 (NOT (ucast data :: cint)) AND 3\<rparr>"

text \<open>
  \<open>u16 input_r()\<close>:
  \<^verbatim>\<open>
    u16 data = 0;
    for (int i = 0; i < 2; i++)
        if (m_inp_mux & m_inputs[i]->read())
            data |= 0x40 << i;
    for (int i = 0; i < 8; i++)
        if (BIT(m_inp_mux, i))
            data |= m_board->read_file(i ^ 7) << 8;
    return ~data;
  \<close>
  \<open>read_buttons\<close> and \<open>read_chessboard\<close> are the bodies of the two loops,
  \<open>input_r_data\<close> is the local \<open>data\<close> when the second loop ends, and \<open>input_r\<close>
  returns the value together with the state it leaves behind.
\<close>

definition read_buttons :: "devices \<Rightarrow> u8 \<Rightarrow> nat \<Rightarrow> u16 \<Rightarrow> u16" where
  "read_buttons dev mux i data =
     (if (ucast mux :: cint) AND ucast (inputs_read dev i) \<noteq> 0
      then ucast ((ucast data :: cint) OR push_bit i 0x40)
      else data)"

definition read_chessboard :: "devices \<Rightarrow> u8 \<Rightarrow> nat \<Rightarrow> u16 \<Rightarrow> u16" where
  "read_chessboard dev mux i data =
     (if BIT mux i \<noteq> 0
      then ucast ((ucast data :: cint)
                  OR push_bit 8 (ucast (board_read_file dev (i XOR 7)) :: cint))
      else data)"

definition input_r_data :: "devices \<Rightarrow> cpchess2_state \<Rightarrow> u16" where
  "input_r_data dev st =
     fold (read_chessboard dev (m_inp_mux st)) [0..<8]
       (fold (read_buttons dev (m_inp_mux st)) [0..<2] 0)"

definition input_r :: "devices \<Rightarrow> cpchess2_state \<Rightarrow> u16 \<times> cpchess2_state" where
  "input_r dev st = (ucast (NOT (ucast (input_r_data dev st) :: cint)), st)"

subsection \<open>Input ports\<close>

text \<open>
  The port map of the driver:
  \<^verbatim>\<open>
    PORT_START("IN.0")
    PORT_BIT(0x01, IP_ACTIVE_HIGH, IPT_UNUSED)
    PORT_BIT(0x02, IP_ACTIVE_HIGH, IPT_KEYPAD) ... PORT_NAME("King")
    PORT_BIT(0x04, IP_ACTIVE_HIGH, IPT_KEYPAD) ... PORT_NAME("Queen")
    PORT_BIT(0x08, IP_ACTIVE_HIGH, IPT_KEYPAD) ... PORT_NAME("Rook")
    PORT_BIT(0x10, IP_ACTIVE_HIGH, IPT_KEYPAD) ... PORT_NAME("Bishop")
    PORT_BIT(0x20, IP_ACTIVE_HIGH, IPT_KEYPAD) ... PORT_NAME("Knight")
    PORT_BIT(0x40, IP_ACTIVE_HIGH, IPT_KEYPAD) ... PORT_NAME("Pawn")
    PORT_BIT(0x80, IP_ACTIVE_HIGH, IPT_UNUSED)

    PORT_START("IN.1")
    PORT_BIT(0x0f, IP_ACTIVE_HIGH, IPT_UNUSED)
    PORT_BIT(0x10, IP_ACTIVE_HIGH, IPT_KEYPAD) ... PORT_NAME("Take Back")
    PORT_BIT(0x20, IP_ACTIVE_HIGH, IPT_KEYPAD) ... PORT_NAME("Reverse Play")
    PORT_BIT(0x40, IP_ACTIVE_HIGH, IPT_KEYPAD) ... PORT_NAME("Sound")
    PORT_BIT(0x80, IP_ACTIVE_HIGH, IPT_KEYPAD) ... PORT_NAME("Level")
  \<close>
  \<open>IN_keys i\<close> is the set of bits of port \<open>IN.i\<close> that carry a key.
\<close>

definition IN_keys :: "nat \<Rightarrow> u8" where
  "IN_keys i = (if i = 0 then 0x7e else 0xf0)"

text \<open>
  Modelled from the spec: the port framework that evaluates this map is outside the
  driver. The spec calls the bits without a key unused; declared active high, such a
  bit reads 0 whatever happens, and the bit of a key reads 1 while the key is held.
  \<open>cpchess2_ports held board\<close> is the pair of input devices as the driver sees them
  when \<open>held i\<close> gives the keys of port \<open>IN.i\<close> that are held and \<open>board\<close> the
  readings of the sensor board.
\<close>

definition cpchess2_ports :: "(nat \<Rightarrow> u8) \<Rightarrow> (nat \<Rightarrow> u8) \<Rightarrow> devices" where
  "cpchess2_ports held board =
     \<lparr>inputs_read = (\<lambda>i. held i AND IN_keys i), board_read_file = board\<rparr>"

subsection \<open>Concrete states and device readings\<close>

text \<open>
  The state of a freshly constructed driver: \<open>u8 m_inp_mux = 0\<close>, and nothing
  written to any output device yet.
\<close>

definition power_on :: cpchess2_state where
  "power_on = \<lparr>m_inp_mux = 0, display_mx = 0, display_my = 0, dac_state = 0\<rparr>"

text \<open>Every key line active; file \<open>x\<close> of the board reports the single square \<open>x\<close>.\<close>

definition marker_devices :: devices where
  "marker_devices = \<lparr>inputs_read = (\<lambda>i. 0xff), board_read_file = (\<lambda>x. push_bit x 1)\<rparr>"



section \<open>Bit-level facts\<close>

lemma low6_mask: "(0x3f :: 'a::len word) = mask 6"
  by (simp add: mask_eq_exp_minus_1)

lemma bit_0x40:
  "bit (0x40 :: 'a::semiring_bit_operations) n \<longleftrightarrow> possible_bit TYPE('a) n \<and> n = 6"
proof -
  have "(0x40 :: 'a) = 2 ^ 6" by simp
  then have "bit (0x40 :: 'a) n \<longleftrightarrow> bit (2 ^ 6 :: 'a) n" by (simp only:)
  also have "\<dots> \<longleftrightarrow> possible_bit TYPE('a) n \<and> n = 6"
    by (simp only: bit_exp_iff)
  finally show ?thesis .
qed

lemma BIT_nonzero_iff: "BIT x n \<noteq> 0 \<longleftrightarrow> bit x n"
  by (simp add: BIT_def and_one_eq bit_iff_odd_drop_bit odd_iff_mod_2_eq_one)

lemma mask6_of_mask8: "(x :: u16) AND mask 6 = (x AND mask 8) AND mask 6"
  by (rule bit_word_eqI) (auto simp add: bit_simps)

lemma nibble_mask: "(0xf :: 'a::len word) = mask 4"
  by (simp add: mask_eq_exp_minus_1)

lemma high_nibble_mask: "(0xf0 :: 'a::len word) = push_bit 4 (mask 4)"
  by (simp add: mask_eq_exp_minus_1 push_bit_eq_mult)

lemma three_mask: "(3 :: 'a::len word) = mask 2"
  by (simp add: mask_eq_exp_minus_1)

lemma le_nibble:
  fixes v :: u8
  assumes "v \<le> 0xf"
  shows "v AND mask 4 = v"
proof -
  have "v < 2 ^ 4" using assms by (simp add: word_le_nat_alt word_less_nat_alt)
  then show ?thesis by (rule less_mask_eq)
qed

lemma ucast_all_ones: "(ucast (- 1 :: cint) :: u16) = 0xffff"
proof -
  have "(ucast (- 1 :: cint) :: u16) = mask 16"
    by (rule bit_word_eqI) (simp add: bit_simps)
  also have "(mask 16 :: u16) = 0xffff"
    by (simp add: mask_eq_exp_minus_1)
  finally show ?thesis .
qed


lemma two_bits_cases:
  fixes b :: u16
  assumes "b \<le> 3"
  shows "b = 0 \<or> b = 1 \<or> b = 2 \<or> b = 3"
proof -
  have "unat b \<le> 3" using assms by (simp add: word_le_nat_alt)
  then consider "unat b = 0" | "unat b = 1" | "unat b = 2" | "unat b = 3"
    by linarith
  moreover have "b = of_nat k" if "unat b = k" for k
    using that by auto
  ultimately show ?thesis
    by cases (drule \<open>\<And>k. unat b = k \<Longrightarrow> b = of_nat k\<close>, simp)+
qed



section \<open>The two loops of the read handler\<close>

text \<open>The button loop never touches bits 0 to 5 of the accumulator.\<close>

lemma read_buttons_low6:
  assumes "data AND mask 6 = 0"
  shows "read_buttons dev mux i data AND mask 6 = 0"
proof (cases "(ucast mux :: cint) AND ucast (inputs_read dev i) \<noteq> 0")
  case False
  then show ?thesis using assms by (simp add: read_buttons_def)
next
  case True
  have "bit (read_buttons dev mux i data AND mask 6) n \<longleftrightarrow> bit (data AND mask 6) n" for n
    using True by (auto simp add: read_buttons_def bit_0x40 bit_simps)
  then have "read_buttons dev mux i data AND mask 6 = data AND mask 6"
    by (rule bit_word_eqI [rule_format])
  then show ?thesis using assms by simp
qed

lemma fold_read_buttons_low6:
  "data AND mask 6 = 0 \<Longrightarrow> fold (read_buttons dev mux) js data AND mask 6 = 0"
  by (induction js arbitrary: data) (simp_all add: read_buttons_low6)

text \<open>The chessboard loop never touches the low byte of the accumulator.\<close>

lemma read_chessboard_low_byte:
  "read_chessboard dev mux i data AND mask 8 = data AND mask 8"
proof (cases "BIT mux i \<noteq> 0")
  case False
  then show ?thesis by (simp add: read_chessboard_def)
next
  case True
  have "bit (read_chessboard dev mux i data AND mask 8) n \<longleftrightarrow> bit (data AND mask 8) n" for n
    using True by (auto simp add: read_chessboard_def bit_simps)
  then show ?thesis
    by (rule bit_word_eqI [rule_format])
qed

lemma fold_read_chessboard_low_byte:
  "fold (read_chessboard dev mux) js data AND mask 8 = data AND mask 8"
  by (induction js arbitrary: data) (simp_all add: read_chessboard_low_byte)

lemma input_r_data_low6: "input_r_data dev st AND mask 6 = 0"
proof -
  let ?b = "fold (read_buttons dev (m_inp_mux st)) [0..<2] 0"
  have "input_r_data dev st AND mask 6 = (input_r_data dev st AND mask 8) AND mask 6"
    by (rule mask6_of_mask8)
  also have "\<dots> = (?b AND mask 8) AND mask 6"
    by (simp only: input_r_data_def fold_read_chessboard_low_byte)
  also have "\<dots> = ?b AND mask 6"
    by (rule mask6_of_mask8 [symmetric])
  also have "\<dots> = 0"
    by (rule fold_read_buttons_low6) simp
  finally show ?thesis .
qed

text \<open>With no line selected, neither loop changes the accumulator.\<close>

lemma read_buttons_idle: "read_buttons dev 0 i data = data"
  by (simp add: read_buttons_def)

lemma read_chessboard_idle: "read_chessboard dev 0 i data = data"
  by (simp add: read_chessboard_def BIT_def)

lemma fold_read_buttons_idle: "fold (read_buttons dev 0) js data = data"
  by (induction js) (simp_all add: read_buttons_idle)

lemma fold_read_chessboard_idle: "fold (read_chessboard dev 0) js data = data"
  by (induction js) (simp_all add: read_chessboard_idle)

text \<open>The button loop, run over groups 0 and 1, leaves the high byte alone.\<close>

lemma read_buttons_high_byte:
  assumes "i < 2"
  shows "drop_bit 8 (read_buttons dev mux i data) = drop_bit 8 data"
proof (cases "(ucast mux :: cint) AND ucast (inputs_read dev i) \<noteq> 0")
  case False
  then show ?thesis by (simp add: read_buttons_def)
next
  case True
  have "bit (drop_bit 8 (read_buttons dev mux i data)) n \<longleftrightarrow> bit (drop_bit 8 data) n" for n
    using True assms
    by (auto simp add: read_buttons_def bit_0x40 bit_simps dest: bit_imp_le_length)
  then show ?thesis
    by (rule bit_word_eqI [rule_format])
qed

lemma fold_read_buttons_high_byte:
  assumes "\<And>j. j \<in> set js \<Longrightarrow> j < 2"
  shows "drop_bit 8 (fold (read_buttons dev mux) js data) = drop_bit 8 data"
  using assms by (induction js arbitrary: data) (simp_all add: read_buttons_high_byte)

text \<open>One step of the chessboard loop, seen from the high byte.\<close>

lemma read_chessboard_high_byte:
  "(ucast (drop_bit 8 (read_chessboard dev mux i data)) :: u8) =
     (if bit mux i then ucast (drop_bit 8 data) OR board_read_file dev (i XOR 7)
      else ucast (drop_bit 8 data))"
proof (cases "bit mux i")
  case False
  then show ?thesis by (simp add: read_chessboard_def BIT_nonzero_iff)
next
  case True
  have "bit (ucast (drop_bit 8 (read_chessboard dev mux i data)) :: u8) n \<longleftrightarrow>
        bit (ucast (drop_bit 8 data) OR board_read_file dev (i XOR 7)) n" for n
    using True
    by (auto simp add: read_chessboard_def BIT_nonzero_iff bit_simps dest: bit_imp_le_length)
  then have "(ucast (drop_bit 8 (read_chessboard dev mux i data)) :: u8) =
        ucast (drop_bit 8 data) OR board_read_file dev (i XOR 7)"
    by (rule bit_word_eqI [rule_format])
  then show ?thesis using True by simp
qed

text \<open>
  When \<open>i\<close> is the only selected line among the indices the loop visits, the loop
  adds exactly the reading of file \<open>i XOR 7\<close>.
\<close>

lemma fold_read_chessboard_single:
  assumes "\<And>j. j \<in> set js \<Longrightarrow> bit mux j \<longleftrightarrow> j = i"
  shows "(ucast (drop_bit 8 (fold (read_chessboard dev mux) js data)) :: u8) =
     (if i \<in> set js then ucast (drop_bit 8 data) OR board_read_file dev (i XOR 7)
      else ucast (drop_bit 8 data))"
  using assms
proof (induction js arbitrary: data)
  case Nil
  then show ?case by simp
next
  case (Cons j js)
  have sel: "bit mux j \<longleftrightarrow> j = i" by (rule Cons.prems) simp
  have rest: "\<And>k. k \<in> set js \<Longrightarrow> bit mux k \<longleftrightarrow> k = i" by (rule Cons.prems) simp
  show ?case
    by (simp add: Cons.IH [OF rest] read_chessboard_high_byte sel or.assoc)
qed





lemma line0_without_key:
  "(1 :: u8) AND inputs_read (cpchess2_ports held board) 0 = 0"
proof -
  have "(1 :: u8) AND inputs_read (cpchess2_ports held board) 0 = 1 AND (held 0 AND 0x7e)"
    by (simp add: cpchess2_ports_def IN_keys_def)
  also have "\<dots> = held 0 AND (1 AND 0x7e)"
    by (simp only: ac_simps)
  also have "\<dots> = 0"
    by simp
  finally show ?thesis .
qed

section \<open>The mux register\<close>

lemma mux_w_0: "m_inp_mux (mux_w 0 data st) = (m_inp_mux st AND 0xf0) OR (data XOR 0xf)"
  unfolding mux_w_def Let_def nibble_mask high_nibble_mask
  by simp (rule bit_word_eqI, auto simp add: bit_simps)

lemma mux_w_1:
  "m_inp_mux (mux_w (Suc 0) data st) = (m_inp_mux st AND 0xf) OR push_bit 4 (data XOR 0xf)"
  unfolding mux_w_def Let_def nibble_mask
  by simp (rule bit_word_eqI, auto simp add: bit_simps)

text \<open>
  C1. For every 4-bit value \<open>v\<close> (0 to 15) and slot \<open>N\<close> in \<open>{0, 1}\<close>, \<open>mux_w<N>\<close>
  called with \<open>v\<close> sets the 4-bit slice of \<open>m_inp_mux\<close> at bit offset \<open>N * 4\<close> to
  \<open>v XOR 0xF\<close> and leaves the other 4-bit slice as it was.
\<close>

theorem mux_w_slice:
  assumes "N < 2" and "v \<le> 0xf"
  shows "drop_bit (N * 4) (m_inp_mux (mux_w N v st)) AND 0xf = v XOR 0xf
       \<and> drop_bit ((1 - N) * 4) (m_inp_mux (mux_w N v st)) AND 0xf
           = drop_bit ((1 - N) * 4) (m_inp_mux st) AND 0xf"
proof -
  have v: "n < 4" if "bit v n" for n
  proof -
    from that have "bit (v AND mask 4) n"
      by (simp only: le_nibble [OF assms(2)])
    then show ?thesis by (simp add: bit_simps)
  qed
  from assms(1) consider "N = 0" | "N = Suc 0" by linarith
  then show ?thesis
  proof cases
    case 1
    show ?thesis
      unfolding 1 mux_w_0
      unfolding nibble_mask high_nibble_mask
      by simp (rule conjI; rule bit_word_eqI; use v in \<open>auto simp add: bit_simps\<close>)
  next
    case 2
    show ?thesis
      unfolding 2 mux_w_1
      unfolding nibble_mask
      by simp (rule conjI; rule bit_word_eqI; use v in \<open>auto simp add: bit_simps\<close>)
  qed
qed

theorem mux_w_slice_witness:
  "(1::nat) < 2 \<and> (5::u8) \<le> 0xf
   \<and> drop_bit 4 (m_inp_mux (mux_w 1 5 (power_on\<lparr>m_inp_mux := 0x3c\<rparr>))) AND 0xf = 0xa
   \<and> drop_bit 0 (m_inp_mux (mux_w 1 5 (power_on\<lparr>m_inp_mux := 0x3c\<rparr>))) AND 0xf = 0xc"
  using mux_w_slice [of 1 5 "power_on\<lparr>m_inp_mux := 0x3c\<rparr>"]
  by (simp add: power_on_def)

text \<open>
  C4, as the code has it. \<open>mux_w<1>\<close> behaves for every 8-bit \<open>data\<close> as if \<open>data\<close>
  were first masked to its low 4 bits. \<open>mux_w<0>\<close> does not mask: its result is the
  result of writing \<open>data AND 0xF\<close>, with bits 4 to 7 of \<open>data\<close> ORed in on top.
\<close>

theorem mux_w_high_data_bits:
  "m_inp_mux (mux_w 1 data st) = m_inp_mux (mux_w 1 (data AND 0xf) st)
   \<and> m_inp_mux (mux_w 0 data st) = m_inp_mux (mux_w 0 (data AND 0xf) st) OR (data AND 0xf0)"
  unfolding One_nat_def mux_w_0 mux_w_1
  unfolding nibble_mask high_nibble_mask
  by (rule conjI; rule bit_word_eqI; auto simp add: bit_simps)

text \<open>
  Writing \<open>0x10\<close> to slot 0 of a fresh register sets bit 4, which belongs to slot 1;
  writing the masked value \<open>0x10 AND 0xF = 0\<close> does not.
\<close>

theorem mux_w_0_unmasked_counterexample:
  "m_inp_mux (mux_w 0 0x10 power_on) = 0x1f
   \<and> m_inp_mux (mux_w 0 (0x10 AND 0xf) power_on) = 0x0f
   \<and> m_inp_mux (mux_w 0 0x10 power_on) \<noteq> m_inp_mux (mux_w 0 (0x10 AND 0xf) power_on)"
  by (simp add: mux_w_def power_on_def)

text \<open>
  C10. \<open>mux_w<1>\<close> leaves bits 0 to 3 of \<open>m_inp_mux\<close> unchanged for every 8-bit
  \<open>data\<close>, also above \<open>0xF\<close>: what \<open>(data ^ 0xf) << 4\<close> puts beyond bit 7 is cut off
  by the store into the 8-bit member.
\<close>

theorem mux_w_1_keeps_low_slice:
  "m_inp_mux (mux_w 1 data st) AND 0xf = m_inp_mux st AND 0xf"
  unfolding One_nat_def mux_w_1
  unfolding nibble_mask
  by (rule bit_word_eqI) (auto simp add: bit_simps)

section \<open>The control register\<close>

lemma control_w_row: "display_my (control_w data st) = ucast (drop_bit 2 (NOT data) AND 3)"
  unfolding control_w_def three_mask
  by simp (rule bit_word_eqI, auto simp add: bit_simps)

lemma control_w_row_inverts:
  "unat (display_my (control_w data st)) + unat (drop_bit 2 data AND 3) = 3"
proof -
  define b where "b = drop_bit 2 data AND 3"
  have row: "display_my (control_w data st) = ucast (NOT b AND 3)"
    unfolding control_w_row b_def three_mask
    by (rule arg_cong [where f = ucast], rule bit_word_eqI) (auto simp add: bit_simps)
  have "b \<le> 3" unfolding b_def by (rule word_and_le1)
  then have "b = 0 \<or> b = 1 \<or> b = 2 \<or> b = 3" by (rule two_bits_cases)
  then have "unat (ucast (NOT b AND 3) :: cint) + unat b = 3"
    by (elim disjE) simp_all
  then show ?thesis by (simp only: row b_def)
qed

text \<open>
  C6. For every 16-bit value written to the control register, the row handed to
  the display is \<open>(~value >> 2) & 3\<close>. Read as numbers, the row and bits 2 to 3 of
  the value add up to 3: \<open>00\<close> gives row 3, \<open>01\<close> row 2, \<open>10\<close> row 1, \<open>11\<close> row 0.
\<close>

theorem control_w_row_select:
  "display_my (control_w data st) = ucast (drop_bit 2 (NOT data) AND 3)
   \<and> unat (display_my (control_w data st)) + unat (drop_bit 2 data AND 3) = 3"
  by (simp only: control_w_row control_w_row_inverts [unfolded control_w_row])

section \<open>Properties of the read handler\<close>

text \<open>
  C9. Whatever the mux register and the device readings are, bits 0 to 5 of the
  value returned by \<open>input_r\<close> are all 1: the accumulator only ever receives bits
  6 to 15, and the result is its complement.
\<close>

theorem input_r_low6_set: "fst (input_r dev st) AND 0x3f = 0x3f"
proof -
  have "bit (fst (input_r dev st) AND mask 6) n \<longleftrightarrow> bit (mask 6 :: u16) n" for n
    using input_r_data_low6 [of dev st, THEN arg_cong, of "\<lambda>w. bit w n"]
    by (auto simp add: input_r_def bit_simps)
  then have "fst (input_r dev st) AND mask 6 = mask 6"
    by (rule bit_word_eqI [rule_format])
  then show ?thesis by (simp only: low6_mask)
qed

text \<open>
  C2. For every \<open>i\<close> from 0 to 7: when bit \<open>i\<close> of \<open>m_inp_mux\<close> is set and every other
  bit is clear, the upper byte (bits 8 to 15) of the accumulator, before the final
  complement, is the board's reading of file \<open>i XOR 7\<close>.
\<close>

theorem board_bit_reversal:
  assumes "i < 8" and "m_inp_mux st = push_bit i 1"
  shows "ucast (drop_bit 8 (input_r_data dev st)) = board_read_file dev (i XOR 7)"
proof -
  have only: "bit (m_inp_mux st) j \<longleftrightarrow> j = i" if "j \<in> set [0..<8]" for j
    using that assms by (auto simp add: bit_simps)
  have "drop_bit 8 (fold (read_buttons dev (m_inp_mux st)) [0..<2] 0) = 0"
    by (subst fold_read_buttons_high_byte) simp_all
  moreover have "i \<in> set [0..<8]" using assms(1) by simp
  ultimately show ?thesis
    unfolding input_r_data_def
    by (simp only: fold_read_chessboard_single [of "[0..<8]", OF only]) simp
qed

theorem board_bit_reversal_witness:
  "(2::nat) < 8 \<and> m_inp_mux (power_on\<lparr>m_inp_mux := 0x04\<rparr>) = push_bit 2 1
   \<and> board_read_file marker_devices (2 XOR 7) = 0x20
   \<and> (ucast (drop_bit 8 (input_r_data marker_devices (power_on\<lparr>m_inp_mux := 0x04\<rparr>))) :: u8)
       = 0x20"
  using board_bit_reversal [of 2 "power_on\<lparr>m_inp_mux := 0x04\<rparr>" marker_devices]
  by (simp add: power_on_def marker_devices_def)



text \<open>
  C5. With \<open>m_inp_mux\<close> and the device readings fixed, \<open>input_r\<close> leaves the whole
  state as it found it, so a second call with no write in between returns the same
  16-bit value as the first; the value depends on the state through \<open>m_inp_mux\<close>
  alone.
\<close>

theorem input_r_pure:
  "snd (input_r dev st) = st
   \<and> fst (input_r dev (snd (input_r dev st))) = fst (input_r dev st)
   \<and> fst (input_r dev st) = fst (input_r dev (power_on\<lparr>m_inp_mux := m_inp_mux st\<rparr>))"
  by (simp add: input_r_def input_r_data_def)

text \<open>
  C7. When \<open>m_inp_mux\<close> is 0, then for all device readings the accumulator stays 0
  and \<open>input_r\<close> returns \<open>0xFFFF\<close>.
\<close>

theorem input_r_idle:
  assumes "m_inp_mux st = 0"
  shows "input_r_data dev st = 0 \<and> fst (input_r dev st) = 0xffff"
proof -
  have "input_r_data dev st = 0"
    by (simp add: input_r_data_def assms fold_read_buttons_idle fold_read_chessboard_idle)
  then show ?thesis by (simp add: input_r_def ucast_all_ones)
qed

theorem input_r_idle_witness:
  "m_inp_mux power_on = 0 \<and> input_r_data marker_devices power_on = 0
   \<and> fst (input_r marker_devices power_on) = 0xffff"
  using input_r_idle [of power_on marker_devices] by (simp add: power_on_def)

section \<open>Ownership of the mux register\<close>

text \<open>
  C8. Only \<open>mux_w<0>\<close> and \<open>mux_w<1>\<close> change \<open>m_inp_mux\<close>: \<open>control_w\<close> leaves it
  unchanged for every value written, and \<open>input_r\<close> leaves it unchanged for all
  device readings.
\<close>

theorem mux_untouched_by_control_and_read:
  "m_inp_mux (control_w data st) = m_inp_mux st
   \<and> m_inp_mux (snd (input_r dev st)) = m_inp_mux st"
  by (simp add: control_w_def input_r_def)

end
